theory Spec2Isabelle
  imports Complex_Main "HOL-Library.AList" "HOL-Library.Word"
begin

section \<open>Exceptions\<close>

text \<open>
  Every failure of the Python code is an exception. All failures raised by
  \<^verbatim>\<open>core.py\<close> itself are \<^verbatim>\<open>ValueError\<close>s that differ only in their
  message; the message is kept as a tag. The specification's names for them are given
  beside each tag.
\<close>

datatype value_error =
    L2_and_L3_must_be_positive
      \<comment> \<open>\<^verbatim>\<open>"L2 and L3 must be positive"\<close>: the spec's GeometryError\<close>
  | Not_enough_data
      \<comment> \<open>\<^verbatim>\<open>"Not enough data for trilateration. ..."\<close>: InsufficientData\<close>
  | Not_enough_anchor_positions
      \<comment> \<open>\<^verbatim>\<open>"Not enough anchor positions for trilateration: ..."\<close>: InsufficientAnchors\<close>
  | Not_enough_common_anchors
      \<comment> \<open>\<^verbatim>\<open>"Not enough common anchors for trilateration. ..."\<close>: NoCommonAnchors\<close>
  | At_least_3_anchor_positions
      \<comment> \<open>\<^verbatim>\<open>"At least 3 anchor positions are required for trilateration"\<close>\<close>
  | Linear_requires_2_parameters
  | Quadratic_requires_3_parameters
  | Cubic_requires_4_parameters

datatype exn =
    ValueError value_error
  | IndexError
  | KeyError
  | ZeroDivisionError
  | OverflowError
      \<comment> \<open>raised by the float power \<^verbatim>\<open>x ** n\<close> when the result is out of range\<close>
  | StructError
      \<comment> \<open>\<^verbatim>\<open>struct.error\<close>, raised by \<^verbatim>\<open>struct.unpack\<close>: the spec's MalformedFrame\<close>

fun is_ValueError :: "exn \<Rightarrow> bool" where
  "is_ValueError (ValueError m) = True"
| "is_ValueError e = False"

section \<open>Dictionaries\<close>

text \<open>
  A Python \<^verbatim>\<open>dict\<close> is an association list in insertion order whose keys are
  distinct. \<^verbatim>\<open>d[k] = v\<close> is \<^const>\<open>AList.update\<close>: it replaces the value where
  the key is present and appends the pair otherwise. \<^verbatim>\<open>len(d)\<close> is the length of
  the list and \<^verbatim>\<open>d[k]\<close> is \<^const>\<open>map_of\<close>.
\<close>

type_synonym ('k, 'v) dict = "('k \<times> 'v) list"

definition keys :: "('k, 'v) dict \<Rightarrow> 'k list" where
  "keys d = map fst d"

definition is_dict :: "('k, 'v) dict \<Rightarrow> bool" where
  "is_dict d = distinct (map fst d)"

text \<open>\<^verbatim>\<open>[(k, d[k]) for k in ks]\<close>, with the \<^verbatim>\<open>KeyError\<close> of a missing key.\<close>

fun getitems :: "('k, 'v) dict \<Rightarrow> 'k list \<Rightarrow> exn + ('k \<times> 'v) list" where
  "getitems d [] = Inr []"
| "getitems d (k # ks) =
     (case map_of d k of
        None \<Rightarrow> Inl KeyError
      | Some v \<Rightarrow> (case getitems d ks of Inl e \<Rightarrow> Inl e | Inr r \<Rightarrow> Inr ((k, v) # r)))"

section \<open>core.py\<close>

text \<open>
  Python floats are modelled as real numbers: rounding, infinities and NaN are not
  represented; the one float operation of this module that raises, the power, has its
  failure written out below. Anchor identifiers and \<^verbatim>\<open>z_sign\<close> are Python integers.
\<close>

type_synonym position = "real \<times> real \<times> real"

subsection \<open>solve_position\<close>

definition solve_position ::
  "real \<Rightarrow> real \<Rightarrow> real \<Rightarrow> int \<Rightarrow> real \<Rightarrow> real \<Rightarrow> real \<Rightarrow> exn + position" where
  "solve_position d1 d2 d3 z_sign eps L2 L3 =
     (if L2 \<le> 0 \<or> L3 \<le> 0 then Inl (ValueError L2_and_L3_must_be_positive)
      else
        let x = (L2 * L2 + d1 * d1 - d2 * d2) / (2 * L2);
            y = (L3 * L3 + d1 * d1 - d3 * d3) / (2 * L3);
            z2 = d1 * d1 - x * x - y * y;
            z2 = (if z2 < 0 then 0 else z2);
            z = sqrt z2 * (if z_sign \<ge> 0 then 1 else - 1)
        in Inr (x, y, z))"

subsection \<open>Calibration polynomials\<close>

definition calibrated_linear :: "real \<Rightarrow> real \<Rightarrow> real \<Rightarrow> real" where
  "calibrated_linear k b x = k * x + b"

text \<open>
  The float power \<^verbatim>\<open>x ** n\<close> is the one float operation here that raises:
  \<^verbatim>\<open>OverflowError\<close> when the result is out of range, that is, when the exact
  power would round to an infinity. The largest finite double is
  \<^verbatim>\<open>2**1024 - 2**971\<close>, and a magnitude of \<^verbatim>\<open>2**1024 - 2**970\<close> or more rounds
  to an infinity. Float multiplication and addition return an infinity instead and
  raise nothing.
\<close>

definition float_overflow :: real where
  "float_overflow = 2 ^ 1024 - 2 ^ 970"

definition float_pow :: "real \<Rightarrow> nat \<Rightarrow> exn + real" where
  "float_pow x n = (if float_overflow \<le> \<bar>x ^ n\<bar> then Inl OverflowError else Inr (x ^ n))"

definition calibrated_quadratic :: "real \<Rightarrow> real \<Rightarrow> real \<Rightarrow> real \<Rightarrow> exn + real" where
  "calibrated_quadratic a b c x =
     (case float_pow x 2 of
        Inl e \<Rightarrow> Inl e
      | Inr x2 \<Rightarrow> Inr (a * x2 + b * x + c))"

definition calibrated_cubic :: "real \<Rightarrow> real \<Rightarrow> real \<Rightarrow> real \<Rightarrow> real \<Rightarrow> exn + real" where
  "calibrated_cubic a b c d x =
     (case float_pow x 3 of
        Inl e \<Rightarrow> Inl e
      | Inr x3 \<Rightarrow>
          (case float_pow x 2 of
             Inl e \<Rightarrow> Inl e
           | Inr x2 \<Rightarrow> Inr (a * x3 + b * x2 + c * x + d)))"

subsection \<open>multilateration\<close>

text \<open>
  The least-squares solve is done by the external package \<^verbatim>\<open>localization\<close>
  (\<^verbatim>\<open>lx.Project\<close>, \<^verbatim>\<open>add_anchor\<close>, \<^verbatim>\<open>add_target\<close>, \<^verbatim>\<open>add_measure\<close>,
  \<^verbatim>\<open>solve\<close>), which is not part of the repository. It is a parameter of the model:
  a function from the anchors and the measures handed to the project to the located
  point, or to the exception a call into the package raised.
\<close>

type_synonym solver = "(int \<times> position) list \<Rightarrow> (int \<times> real) list \<Rightarrow> exn + position"

text \<open>
  The first loop: \<^verbatim>\<open>for anchor_id in raw_data.keys(): if raw_data[anchor_id] is not None:
  non_zero_data[anchor_id] = raw_data[anchor_id]\<close>. A value of the dictionary is either
  a number or \<^verbatim>\<open>None\<close>.
\<close>

fun non_zero_loop ::
  "(int, real option) dict \<Rightarrow> int list \<Rightarrow> (int, real) dict \<Rightarrow> (int, real) dict" where
  "non_zero_loop raw_data [] non_zero_data = non_zero_data"
| "non_zero_loop raw_data (anchor_id # ids) non_zero_data =
     (case map_of raw_data anchor_id of
        Some (Some v) \<Rightarrow> non_zero_loop raw_data ids (AList.update anchor_id v non_zero_data)
      | _ \<Rightarrow> non_zero_loop raw_data ids non_zero_data)"

definition non_zero_data_of :: "(int, real option) dict \<Rightarrow> (int, real) dict" where
  "non_zero_data_of raw_data = non_zero_loop raw_data (keys raw_data) []"

text \<open>
  \<^verbatim>\<open>list(set(non_zero_data.keys()) & set(anchor_positions.keys()))\<close>. Python leaves the
  order of a set's elements open; the model lists them in the order of
  \<^verbatim>\<open>non_zero_data\<close>. No property below depends on the order.
\<close>

definition matched_ids_of :: "(int, real) dict \<Rightarrow> (int, position) dict \<Rightarrow> int list" where
  "matched_ids_of non_zero_data anchor_positions =
     filter (\<lambda>k. k \<in> set (keys anchor_positions)) (remdups (keys non_zero_data))"

text \<open>
  Everything up to \<^verbatim>\<open>P.solve()\<close>: the three checks in the order of the source,
  then the anchors and measures added to the project.
\<close>

definition solver_input ::
  "(int, real option) dict \<Rightarrow> (int, position) dict
     \<Rightarrow> exn + ((int \<times> position) list \<times> (int \<times> real) list)" where
  "solver_input raw_data anchor_positions =
     (let non_zero_data = non_zero_data_of raw_data in
      if length non_zero_data < 3 then Inl (ValueError Not_enough_data)
      else if length anchor_positions < 3 then Inl (ValueError Not_enough_anchor_positions)
      else
        let matched_ids = matched_ids_of non_zero_data anchor_positions in
        if length matched_ids < 3 then Inl (ValueError Not_enough_common_anchors)
        else
          (case getitems anchor_positions matched_ids of
             Inl e \<Rightarrow> Inl e
           | Inr anchors \<Rightarrow>
               (case getitems non_zero_data matched_ids of
                  Inl e \<Rightarrow> Inl e
                | Inr measured \<Rightarrow> Inr (anchors, measured))))"

definition multilateration ::
  "solver \<Rightarrow> (int, real option) dict \<Rightarrow> (int, position) dict \<Rightarrow> int \<Rightarrow> exn + position" where
  "multilateration lx_solve raw_data anchor_positions z_sign =
     (case solver_input raw_data anchor_positions of
        Inl e \<Rightarrow> Inl e
      | Inr (anchors, measured) \<Rightarrow>
          (case lx_solve anchors measured of
             Inl e \<Rightarrow> Inl e
           | Inr (x, y, z) \<Rightarrow>
               Inr (x, y, if z_sign \<noteq> 0 then \<bar>z\<bar> * real_of_int z_sign else z)))"

subsection \<open>LocalizationEngine\<close>

record LocalizationEngine =
  anchor_positions :: "(int, position) dict"
  calibration_type :: string
  calibration_params :: "real list"
  z_sign :: int
  min_range :: real
  max_range :: real

text \<open>
  \<^verbatim>\<open>__init__\<close>: \<^verbatim>\<open>calibration_params or []\<close> turns \<^verbatim>\<open>None\<close> into the empty
  list. The only check is the number of anchor positions.
\<close>

definition LocalizationEngine_init ::
  "(int, position) dict \<Rightarrow> string \<Rightarrow> real list option \<Rightarrow> int \<Rightarrow> real \<Rightarrow> real
     \<Rightarrow> exn + LocalizationEngine" where
  "LocalizationEngine_init aps ctype cparams zs mn mx =
     (let self = \<lparr> anchor_positions = aps, calibration_type = ctype,
                   calibration_params = (case cparams of None \<Rightarrow> [] | Some ps \<Rightarrow> ps),
                   z_sign = zs, min_range = mn, max_range = mx \<rparr>
      in if length (anchor_positions self) < 3
         then Inl (ValueError At_least_3_anchor_positions)
         else Inr self)"

definition calibrate :: "LocalizationEngine \<Rightarrow> real \<Rightarrow> exn + real" where
  "calibrate self raw_distance =
     (let ps = calibration_params self in
      if calibration_type self = ''linear'' then
        (if length ps \<noteq> 2 then Inl (ValueError Linear_requires_2_parameters)
         else Inr (calibrated_linear (ps ! 0) (ps ! 1) raw_distance))
      else if calibration_type self = ''quadratic'' then
        (if length ps \<noteq> 3 then Inl (ValueError Quadratic_requires_3_parameters)
         else calibrated_quadratic (ps ! 0) (ps ! 1) (ps ! 2) raw_distance)
      else if calibration_type self = ''cubic'' then
        (if length ps \<noteq> 4 then Inl (ValueError Cubic_requires_4_parameters)
         else calibrated_cubic (ps ! 0) (ps ! 1) (ps ! 2) (ps ! 3) raw_distance)
      else Inr raw_distance)"

definition validate_range :: "LocalizationEngine \<Rightarrow> real \<Rightarrow> bool" where
  "validate_range self distance \<longleftrightarrow> min_range self \<le> distance \<and> distance \<le> max_range self"

text \<open>
  The loop of \<^verbatim>\<open>calculate_position\<close>: \<^verbatim>\<open>for anchor_id, distance in distances.items():
  if distance is not None and self.validate_range(distance):
  valid_distances[anchor_id] = distance\<close>.
\<close>

fun valid_loop ::
  "LocalizationEngine \<Rightarrow> (int \<times> real option) list \<Rightarrow> (int, real) dict \<Rightarrow> (int, real) dict" where
  "valid_loop self [] valid_distances = valid_distances"
| "valid_loop self ((anchor_id, distance) # items) valid_distances =
     (case distance of
        None \<Rightarrow> valid_loop self items valid_distances
      | Some d \<Rightarrow>
          if validate_range self d
          then valid_loop self items (AList.update anchor_id d valid_distances)
          else valid_loop self items valid_distances)"

definition valid_distances_of ::
  "LocalizationEngine \<Rightarrow> (int, real option) dict \<Rightarrow> (int, real) dict" where
  "valid_distances_of self distances = valid_loop self distances []"

text \<open>
  \<^verbatim>\<open>calculate_position\<close>: \<^verbatim>\<open>Inr None\<close> is the returned \<^verbatim>\<open>None\<close>,
  \<^verbatim>\<open>Inr (Some p)\<close> a returned position and \<^verbatim>\<open>Inl e\<close> an exception that leaves
  the method. The handler is \<^verbatim>\<open>except ValueError\<close>: any other exception
  propagates.
\<close>

definition calculate_position ::
  "solver \<Rightarrow> LocalizationEngine \<Rightarrow> (int, real option) dict \<Rightarrow> exn + position option" where
  "calculate_position lx_solve self distances =
     (let valid_distances = valid_distances_of self distances in
      if length valid_distances < 3 then Inr None
      else
        (case multilateration lx_solve (map (\<lambda>(k, d). (k, Some d)) valid_distances)
                (anchor_positions self) (z_sign self) of
           Inr p \<Rightarrow> Inr (Some p)
         | Inl (ValueError m) \<Rightarrow> Inr None
         | Inl e \<Rightarrow> Inl e))"

subsection \<open>Views used by the properties\<close>

text \<open>
  The entries of a cycle that are present and lie within the inclusive bounds
  \<open>[min_range, max_range]\<close>, and the entries of a dictionary that are not \<^verbatim>\<open>None\<close>.
\<close>

definition survivors ::
  "LocalizationEngine \<Rightarrow> (int, real option) dict \<Rightarrow> (int \<times> real option) list" where
  "survivors self distances =
     filter (\<lambda>(k, v). case v of None \<Rightarrow> False
                        | Some d \<Rightarrow> min_range self \<le> d \<and> d \<le> max_range self) distances"

text \<open>
  The entries of a cycle that survive calibration followed by the range check, as the
  specification describes \<open>calculate_position\<close>: the value is present, \<open>calibrate\<close>
  returns a corrected value, and that value lies within the inclusive bounds.
\<close>

definition calibrated_survivors ::
  "LocalizationEngine \<Rightarrow> (int, real option) dict \<Rightarrow> (int \<times> real option) list" where
  "calibrated_survivors self distances =
     filter (\<lambda>(k, v). case v of None \<Rightarrow> False
                        | Some d \<Rightarrow>
                            (case calibrate self d of
                               Inl e \<Rightarrow> False
                             | Inr c \<Rightarrow> min_range self \<le> c \<and> c \<le> max_range self)) distances"

definition present :: "(int, real option) dict \<Rightarrow> (int, real) dict" where
  "present raw_data = List.map_filter (\<lambda>(k, v). map_option (Pair k) v) raw_data"

text \<open>What the first loop of \<open>multilateration\<close> adds for one key.\<close>

definition pick :: "(int, real option) dict \<Rightarrow> int \<Rightarrow> (int \<times> real) list" where
  "pick raw k = (case map_of raw k of Some (Some v) \<Rightarrow> [(k, v)] | _ \<Rightarrow> [])"

text \<open>A call into the external package that raises the exception \<open>e\<close>.\<close>

definition raising_solver :: "exn \<Rightarrow> solver" where
  "raising_solver e anchors measured = Inl e"

text \<open>A call into the external package that returns the point \<open>p\<close>.\<close>

definition returning_solver :: "position \<Rightarrow> solver" where
  "returning_solver p anchors measured = Inr p"

text \<open>The anchors and the engine of the fixtures in \<^verbatim>\<open>tests/test_core.py\<close>.\<close>

definition test_anchor_positions :: "(int, position) dict" where
  "test_anchor_positions = [(1, (0, 0, 0)), (2, (3, 0, 0)), (3, (0, 3, 0))]"

definition test_engine :: LocalizationEngine where
  "test_engine =
     \<lparr> anchor_positions = test_anchor_positions, calibration_type = ''none'',
       calibration_params = [], z_sign = 0, min_range = 0, max_range = 100 \<rparr>"

section \<open>input_adapters.py\<close>

type_synonym byte = "8 word"
type_synonym bytes = "byte list"

subsection \<open>Message\<close>

text \<open>
  \<^verbatim>\<open>struct.unpack('<BI', data)\<close>: one unsigned byte, then an unsigned 32-bit integer,
  little-endian, no padding. It raises \<^verbatim>\<open>struct.error\<close> unless the buffer holds
  exactly 5 bytes. The result is the pair \<^verbatim>\<open>(id, data)\<close> of Python integers.
\<close>

fun Message :: "bytes \<Rightarrow> exn + (nat \<times> nat)" where
  "Message [b0, b1, b2, b3, b4] =
     Inr (unat b0, unat b1 + 256 * unat b2 + 65536 * unat b3 + 16777216 * unat b4)"
| "Message data = Inl StructError"

subsection \<open>CircularBuffer\<close>

text \<open>
  \<^verbatim>\<open>item.split(b'\xff\xff\xff\x00')\<close>: the chunk is cut at every occurrence of the
  delimiter, found from left to right without overlap; the pieces between them, empty
  ones included, are returned in order. \<open>cur\<close> holds the current piece, reversed.
\<close>

definition delimiter :: bytes where
  "delimiter = [0xFF, 0xFF, 0xFF, 0x00]"

fun split_loop :: "bytes \<Rightarrow> bytes \<Rightarrow> bytes list" where
  "split_loop cur [] = [rev cur]"
| "split_loop cur (x # xs) =
     (if take 4 (x # xs) = delimiter then rev cur # split_loop [] (drop 3 xs)
      else split_loop (x # cur) xs)"

definition bytes_split :: "bytes \<Rightarrow> bytes list" where
  "bytes_split item = split_loop [] item"

record CircularBuffer =
  buffer :: "bytes list"
  head :: nat
  size_cb :: nat
  tail :: nat
  element_size :: int

text \<open>\<^verbatim>\<open>__init__(self, size, element_size=5)\<close>; \<^verbatim>\<open>range(size)\<close> is empty for a negative size.\<close>

definition CircularBuffer_init :: "int \<Rightarrow> int \<Rightarrow> CircularBuffer" where
  "CircularBuffer_init n es =
     \<lparr> buffer = replicate (nat n) [0x00], head = 0, size_cb = 0, tail = 0,
       element_size = es \<rparr>"

definition default_element_size :: int where
  "default_element_size = 5"

text \<open>
  The loop of \<^verbatim>\<open>append\<close> over the pieces. \<open>put\<close> is the body for a piece that
  is kept: \<^verbatim>\<open>self.buffer[self.head] = item; self.head = (self.head + 1) % len(self.buffer);
  self.size += 1\<close>. The assignment raises \<^verbatim>\<open>IndexError\<close> when the index is not
  below the length of the list; nothing has been written by then in that iteration.
\<close>

definition put :: "CircularBuffer \<Rightarrow> bytes \<Rightarrow> CircularBuffer" where
  "put self item =
     self\<lparr> buffer := (buffer self)[head self := item],
            head := (head self + 1) mod length (buffer self),
            size_cb := size_cb self + 1 \<rparr>"

fun append_loop :: "CircularBuffer \<Rightarrow> bytes list \<Rightarrow> exn + CircularBuffer" where
  "append_loop self [] = Inr self"
| "append_loop self (item # items) =
     (if length item = 0 then append_loop self items
      else if int (length item) > element_size self then append_loop self items
      else if head self < length (buffer self) then append_loop (put self item) items
      else Inl IndexError)"

definition append_cb :: "CircularBuffer \<Rightarrow> bytes option \<Rightarrow> exn + CircularBuffer" where
  "append_cb self item =
     (case item of
        None \<Rightarrow> Inr self
      | Some chunk \<Rightarrow>
          (case append_loop self (bytes_split chunk) of
             Inl e \<Rightarrow> Inl e
           | Inr self' \<Rightarrow>
               Inr (if size_cb self' > length (buffer self')
                    then self'\<lparr> size_cb := length (buffer self') \<rparr> else self')))"

text \<open>The state \<^verbatim>\<open>pop\<close> leaves behind when it returns an entry.\<close>

definition popped :: "CircularBuffer \<Rightarrow> CircularBuffer" where
  "popped self =
     self\<lparr> tail := (tail self + 1) mod length (buffer self), size_cb := size_cb self - 1 \<rparr>"

definition pop :: "CircularBuffer \<Rightarrow> exn + (bytes option \<times> CircularBuffer)" where
  "pop self =
     (if size_cb self = 0 then Inr (None, self)
      else if tail self < length (buffer self) then
        Inr (Some (buffer self ! tail self), popped self)
      else Inl IndexError)"

text \<open>Calling \<^verbatim>\<open>append\<close> once for each chunk of a list, and \<^verbatim>\<open>pop\<close> \<open>n\<close> times.\<close>

fun appends :: "CircularBuffer \<Rightarrow> bytes list \<Rightarrow> exn + CircularBuffer" where
  "appends self [] = Inr self"
| "appends self (chunk # chunks) =
     (case append_cb self (Some chunk) of
        Inl e \<Rightarrow> Inl e
      | Inr self' \<Rightarrow> appends self' chunks)"

fun pops :: "nat \<Rightarrow> CircularBuffer \<Rightarrow> exn + (bytes option list \<times> CircularBuffer)" where
  "pops 0 self = Inr ([], self)"
| "pops (Suc n) self =
     (case pop self of
        Inl e \<Rightarrow> Inl e
      | Inr (x, self') \<Rightarrow>
          (case pops n self' of
             Inl e \<Rightarrow> Inl e
           | Inr (xs, self'') \<Rightarrow> Inr (x # xs, self'')))"

text \<open>
  The entries a reader will see: the \<open>size\<close> slots from \<open>tail\<close> on, in ring order.
  The ring invariant says that the indices are in range, that \<open>size\<close> is at most the
  capacity and that \<open>head\<close> is \<open>size\<close> slots after \<open>tail\<close>.
\<close>

definition contents :: "CircularBuffer \<Rightarrow> bytes list" where
  "contents self =
     map (\<lambda>i. buffer self ! ((tail self + i) mod length (buffer self))) [0..<size_cb self]"

definition ring_inv :: "CircularBuffer \<Rightarrow> bool" where
  "ring_inv self \<longleftrightarrow>
     0 < length (buffer self) \<and> tail self < length (buffer self) \<and>
     size_cb self \<le> length (buffer self) \<and>
     head self = (tail self + size_cb self) mod length (buffer self)"

text \<open>The pieces of a chunk that \<^verbatim>\<open>append\<close> does not skip.\<close>

definition slot_ok :: "CircularBuffer \<Rightarrow> bytes \<Rightarrow> bool" where
  "slot_ok self item \<longleftrightarrow> length item \<noteq> 0 \<and> int (length item) \<le> element_size self"

definition accepted :: "CircularBuffer \<Rightarrow> bytes \<Rightarrow> bytes list" where
  "accepted self chunk = filter (slot_ok self) (bytes_split chunk)"

subsection \<open>SerialInputAdapter\<close>

text \<open>\<^verbatim>\<open>self.buffer = CircularBuffer(100, element_size=7)\<close> in \<^verbatim>\<open>__init__\<close>.\<close>

definition SerialInputAdapter_buffer :: CircularBuffer where
  "SerialInputAdapter_buffer = CircularBuffer_init 100 7"

text \<open>
  The inner loop of \<^verbatim>\<open>_read_loop\<close>, which empties the buffer into \<^verbatim>\<open>ranges\<close>:
  \<^verbatim>\<open>while self.buffer.size > 0: msg = self.buffer.pop(); ...; message = Message(msg);
  ranges[message.id] = message.data / 1000.0\<close>. The buffer and \<^verbatim>\<open>ranges\<close> are
  mutated in place, so an exception leaves both as they were when it was raised; the
  first component of the result is that exception, if any.
\<close>

function drain ::
  "CircularBuffer \<Rightarrow> (int, real) dict \<Rightarrow> exn option \<times> CircularBuffer \<times> (int, real) dict" where
  "drain self ranges =
     (if size_cb self > 0 then
        (case pop self of
           Inl e \<Rightarrow> (Some e, self, ranges)
         | Inr (None, self') \<Rightarrow> drain self' ranges
         | Inr (Some msg, self') \<Rightarrow>
             (case Message msg of
                Inl e \<Rightarrow> (Some e, self', ranges)
              | Inr (anchor_id, data) \<Rightarrow>
                  drain self' (AList.update (int anchor_id) (real data / 1000) ranges)))
      else (None, self, ranges))"
  by pat_completeness auto
termination
  by (relation "measure (\<lambda>(self, ranges). size_cb self)")
     (auto simp: pop_def popped_def split: if_splits)

section \<open>The ring buffer as a queue\<close>

text \<open>
  While nothing is overwritten, the buffer is a first-in first-out queue: under the ring
  invariant \<open>pop\<close> returns the first entry and leaves the rest, and \<open>append\<close>
  adds the accepted pieces at the end.
\<close>

lemma ring_slot_distinct:
  fixes t :: nat
  assumes "i < j" "j < N"
  shows "(t + i) mod N \<noteq> (t + j) mod N"
proof
  assume "(t + i) mod N = (t + j) mod N"
  then have "(t + j) mod N = (t + i) mod N" by simp
  moreover have "t + i \<le> t + j" using assms(1) by simp
  ultimately obtain q where "t + j = t + i + N * q" by (rule mod_eq_nat1E)
  then have j: "j = i + N * q" by simp
  with assms(1) have "q \<noteq> 0" by (cases q) auto
  then have "N \<le> N * q" by simp
  with j assms(2) show False by simp
qed

lemma contents_Cons:
  assumes "size_cb b = Suc n"
  shows "contents b = buffer b ! (tail b mod length (buffer b))
            # map (\<lambda>i. buffer b ! ((tail b + Suc i) mod length (buffer b))) [0..<n]"
proof -
  have "[0..<Suc n] = 0 # map Suc [0..<n]"
    by (simp add: upt_conv_Cons map_Suc_upt del: upt_Suc)
  then show ?thesis
    by (simp add: contents_def assms comp_def del: upt_Suc)
qed

lemma contents_nonempty: "contents b = s # rest \<Longrightarrow> 0 < size_cb b"
  by (cases "size_cb b") (auto simp: contents_def)

lemma pop_ring:
  assumes "ring_inv b" "contents b = s # rest"
  shows "pop b = Inr (Some s, popped b)"
    and "ring_inv (popped b)"
    and "contents (popped b) = rest"
proof -
  from assms(2) obtain n where n: "size_cb b = Suc n"
    by (cases "size_cb b") (auto simp: contents_def)
  from assms(1) have N: "0 < length (buffer b)" "tail b < length (buffer b)"
    "size_cb b \<le> length (buffer b)" "head b = (tail b + size_cb b) mod length (buffer b)"
    by (auto simp: ring_inv_def)
  from contents_Cons[OF n] assms(2) N(2)
  have s: "s = buffer b ! tail b"
    and rest: "rest = map (\<lambda>i. buffer b ! ((tail b + Suc i) mod length (buffer b))) [0..<n]"
    by auto
  show "pop b = Inr (Some s, popped b)"
    using n N(2) s by (simp add: pop_def)
  show "ring_inv (popped b)"
    using N n by (simp add: ring_inv_def popped_def mod_Suc_eq mod_add_left_eq)
  show "contents (popped b) = rest"
    using n by (simp add: contents_def popped_def rest mod_Suc_eq mod_add_left_eq)
qed

lemma pops_ring:
  assumes "ring_inv b" "contents b = xs @ ys"
  shows "\<exists>b'. pops (length xs) b = Inr (map Some xs, b') \<and> ring_inv b' \<and> contents b' = ys"
  using assms
proof (induction xs arbitrary: b)
  case Nil
  then show ?case by simp
next
  case (Cons x xs)
  from Cons.prems have c: "contents b = x # (xs @ ys)" by simp
  note p = pop_ring[OF Cons.prems(1) c]
  from Cons.IH[OF p(2) p(3)] obtain b' where
    "pops (length xs) (popped b) = Inr (map Some xs, b')" "ring_inv b'" "contents b' = ys"
    by blast
  with p(1) show ?case by simp
qed

lemma put_ring:
  assumes "ring_inv b" "size_cb b < length (buffer b)"
  shows "ring_inv (put b item)" and "contents (put b item) = contents b @ [item]"
proof -
  let ?N = "length (buffer b)"
  from assms(1) have N: "0 < ?N" "tail b < ?N" "head b = (tail b + size_cb b) mod ?N"
    by (auto simp: ring_inv_def)
  show "ring_inv (put b item)"
    using N assms(2) by (simp add: ring_inv_def put_def mod_Suc_eq)
  have old: "(buffer b)[head b := item] ! ((tail b + i) mod ?N) = buffer b ! ((tail b + i) mod ?N)"
    if "i < size_cb b" for i
    using ring_slot_distinct[OF that assms(2), of "tail b"] N(3) by simp
  have new: "(buffer b)[head b := item] ! ((tail b + size_cb b) mod ?N) = item"
    using N by simp
  show "contents (put b item) = contents b @ [item]"
    using old new by (simp add: contents_def put_def)
qed

lemma slot_ok_put: "slot_ok (put b item) = slot_ok b"
  by (simp add: fun_eq_iff slot_ok_def put_def)

lemma append_loop_ring:
  assumes "ring_inv b" "size_cb b + length (filter (slot_ok b) items) \<le> length (buffer b)"
  shows "\<exists>b'. append_loop b items = Inr b' \<and> ring_inv b' \<and>
           contents b' = contents b @ filter (slot_ok b) items \<and>
           element_size b' = element_size b \<and> length (buffer b') = length (buffer b)"
  using assms
proof (induction items arbitrary: b)
  case Nil
  then show ?case by simp
next
  case (Cons item items)
  show ?case
  proof (cases "slot_ok b item")
    case False
    then have "append_loop b (item # items) = append_loop b items"
      by (auto simp: slot_ok_def)
    with Cons False show ?thesis by simp
  next
    case True
    with Cons.prems have room: "size_cb b < length (buffer b)" by simp
    from Cons.prems(1) room have h: "head b < length (buffer b)" by (simp add: ring_inv_def)
    have step: "append_loop b (item # items) = append_loop (put b item) items"
      using True h by (simp add: slot_ok_def)
    have "size_cb (put b item) + length (filter (slot_ok (put b item)) items)
            \<le> length (buffer (put b item))"
      using Cons.prems(2) True by (simp add: slot_ok_put) (simp add: put_def)
    from Cons.IH[OF put_ring(1)[OF Cons.prems(1) room] this]
    obtain b' where b': "append_loop (put b item) items = Inr b'" "ring_inv b'"
      "contents b' = contents (put b item) @ filter (slot_ok (put b item)) items"
      "element_size b' = element_size (put b item)"
      "length (buffer b') = length (buffer (put b item))"
      by blast
    show ?thesis
      using b' step True put_ring(2)[OF Cons.prems(1) room, of item]
      by (simp add: slot_ok_put) (simp add: put_def)
  qed
qed

lemma append_loop_filter: "append_loop b items = append_loop b (filter (slot_ok b) items)"
proof (induction items arbitrary: b)
  case Nil
  show ?case by simp
next
  case (Cons item items)
  show ?case
  proof (cases "slot_ok b item")
    case False
    then have "append_loop b (item # items) = append_loop b items"
      by (auto simp: slot_ok_def)
    with Cons[of b] False show ?thesis by simp
  next
    case True
    then have "append_loop b (item # items)
        = (if head b < length (buffer b) then append_loop (put b item) items else Inl IndexError)"
      and "append_loop b (item # filter (slot_ok b) items)
        = (if head b < length (buffer b) then append_loop (put b item) (filter (slot_ok b) items)
           else Inl IndexError)"
      by (auto simp: slot_ok_def)
    with Cons[of "put b item"] True show ?thesis by (simp add: slot_ok_put)
  qed
qed

lemma split_loop_no_delimiter:
  "\<forall>i. take 4 (drop i xs) \<noteq> delimiter \<Longrightarrow> split_loop cur xs = [rev cur @ xs]"
proof (induction xs arbitrary: cur)
  case Nil
  show ?case by simp
next
  case (Cons x xs)
  from Cons.prems have "take 4 (drop 0 (x # xs)) \<noteq> delimiter" by blast
  then have here: "take 4 (x # xs) \<noteq> delimiter" by simp
  have "take 4 (drop i xs) \<noteq> delimiter" for i
    using Cons.prems[rule_format, of "Suc i"] by simp
  then have "split_loop (x # cur) xs = [rev (x # cur) @ xs]" by (intro Cons.IH) simp
  with here show ?case by simp
qed

lemma Message_malformed: "length s \<noteq> 5 \<Longrightarrow> Message s = Inl StructError"
  by (induction s rule: Message.induct) auto

text \<open>Evaluation on concrete buffers.\<close>

lemma bytes_split_single: "bytes_split [x] = [[x]]"
  by (simp add: bytes_split_def delimiter_def)

lemma CircularBuffer_init_3:
  "CircularBuffer_init 3 es =
     \<lparr> buffer = [[0x00], [0x00], [0x00]], head = 0, size_cb = 0, tail = 0, element_size = es \<rparr>"
  by (simp add: CircularBuffer_init_def numeral_3_eq_3)

lemma pops_3: "pops 3 b = pops (Suc (Suc (Suc 0))) b"
  by (simp only: numeral_3_eq_3)

section \<open>Counting the entries that pass the range check\<close>

lemma length_update_le: "length (AList.update k v al) \<le> Suc (length al)"
  by (induction al) auto

lemma valid_loop_length:
  "length (valid_loop self items acc) \<le> length acc + length (survivors self items)"
proof (induction items arbitrary: acc)
  case Nil
  then show ?case by (simp add: survivors_def)
next
  case (Cons p items)
  obtain k v where p: "p = (k, v)" by (cases p)
  show ?case
  proof (cases v)
    case None
    with Cons[of acc] p show ?thesis by (simp add: survivors_def)
  next
    case (Some d)
    show ?thesis
    proof (cases "validate_range self d")
      case True
      have "length (valid_loop self items (AList.update k d acc))
              \<le> length (AList.update k d acc) + length (survivors self items)"
        by (rule Cons)
      also have "\<dots> \<le> Suc (length acc) + length (survivors self items)"
        using length_update_le[of k d acc] by simp
      finally show ?thesis using p Some True
        by (simp add: survivors_def validate_range_def)
    next
      case False
      with Cons[of acc] p Some show ?thesis
        by (auto simp: survivors_def validate_range_def)
    qed
  qed
qed

section \<open>The samples that reach the solver\<close>

lemma update_fresh: "k \<notin> fst ` set al \<Longrightarrow> AList.update k v al = al @ [(k, v)]"
  by (induction al) auto

lemma non_zero_loop_concat:
  "distinct ids \<Longrightarrow> set ids \<inter> fst ` set acc = {} \<Longrightarrow>
   non_zero_loop raw ids acc = acc @ concat (map (pick raw) ids)"
proof (induction ids arbitrary: acc)
  case Nil
  then show ?case by simp
next
  case (Cons k ids)
  from Cons.prems have ids: "distinct ids" "set ids \<inter> fst ` set acc = {}" by auto
  show ?case
  proof (cases "\<exists>v. map_of raw k = Some (Some v)")
    case False
    then have "pick raw k = []" and "non_zero_loop raw (k # ids) acc = non_zero_loop raw ids acc"
      by (auto simp: pick_def split: option.splits)
    with Cons.IH[OF ids] show ?thesis by simp
  next
    case True
    then obtain v where v: "map_of raw k = Some (Some v)" by blast
    from Cons.prems have fresh: "k \<notin> fst ` set acc" by auto
    have pk: "pick raw k = [(k, v)]" using v by (simp add: pick_def)
    have step: "non_zero_loop raw (k # ids) acc = non_zero_loop raw ids (acc @ [(k, v)])"
      using v fresh by (simp add: update_fresh)
    have "set ids \<inter> fst ` set (acc @ [(k, v)]) = {}" using Cons.prems by auto
    from Cons.IH[OF ids(1) this] step pk show ?thesis by simp
  qed
qed

lemma pick_present:
  "distinct (map fst raw) \<Longrightarrow> \<forall>p \<in> set ps. p \<in> set raw \<Longrightarrow>
   concat (map (pick raw) (map fst ps)) = present ps"
proof (induction ps)
  case Nil
  then show ?case by (simp add: present_def List.map_filter_simps)
next
  case (Cons p ps)
  obtain k v where p: "p = (k, v)" by (cases p)
  with Cons.prems have "map_of raw k = Some v" by simp
  then have pk: "pick raw k = (case v of None \<Rightarrow> [] | Some x \<Rightarrow> [(k, x)])"
    by (simp add: pick_def split: option.splits)
  have step: "present ((k, v) # ps) = (case v of None \<Rightarrow> [] | Some x \<Rightarrow> [(k, x)]) @ present ps"
    by (simp add: present_def List.map_filter_simps split: option.splits)
  from Cons have "concat (map (pick raw) (map fst ps)) = present ps" by simp
  with pk step show ?case by (simp add: p)
qed

lemma non_zero_data_of_present: "is_dict raw \<Longrightarrow> non_zero_data_of raw = present raw"
  using non_zero_loop_concat[of "map fst raw" "[]" raw] pick_present[of raw raw]
  by (simp add: non_zero_data_of_def keys_def is_dict_def)

lemma length_present: "length (present raw) = length (filter (\<lambda>(k, v). v \<noteq> None) raw)"
  by (induction raw) (auto simp: present_def List.map_filter_simps split: option.splits)

lemma set_present: "(k, x) \<in> set (present raw) \<longleftrightarrow> (k, Some x) \<in> set raw"
  by (induction raw) (auto simp: present_def List.map_filter_simps split: option.splits)

lemma distinct_present: "distinct (map fst raw) \<Longrightarrow> distinct (map fst (present raw))"
proof (induction raw)
  case Nil
  then show ?case by (simp add: present_def List.map_filter_simps)
next
  case (Cons p raw)
  obtain k v where p: "p = (k, v)" by (cases p)
  have sub: "fst ` set (present raw) \<subseteq> fst ` set raw"
    using set_present[of _ _ raw] by force
  have step: "present ((k, v) # raw) = (case v of None \<Rightarrow> present raw | Some x \<Rightarrow> (k, x) # present raw)"
    by (simp add: present_def List.map_filter_simps split: option.splits)
  from Cons p sub step show ?case
    by (cases v) auto
qed

lemma getitems_Inr:
  "getitems d ks = Inr r \<Longrightarrow> r = map (\<lambda>k. (k, the (map_of d k))) ks"
  by (induction ks arbitrary: r) (auto split: option.splits sum.splits)

lemma getitems_error: "getitems d ks = Inl e \<Longrightarrow> e = KeyError"
  by (induction ks) (auto split: option.splits sum.splits)

lemma getitems_total: "set ks \<subseteq> fst ` set d \<Longrightarrow> \<exists>r. getitems d ks = Inr r"
proof (induction ks)
  case Nil
  show ?case by simp
next
  case (Cons k ks)
  then obtain r where r: "getitems d ks = Inr r" by auto
  from Cons.prems have "map_of d k \<noteq> None" by (simp add: map_of_eq_None_iff)
  then obtain v where "map_of d k = Some v" by blast
  with r show ?case by simp
qed

lemma matched_ids_subset:
  "set (matched_ids_of nz aps) \<subseteq> fst ` set nz"
  "set (matched_ids_of nz aps) \<subseteq> fst ` set aps"
  by (auto simp: matched_ids_of_def keys_def)

section \<open>The range of the float power\<close>

lemma float_overflow_le_power: "float_overflow \<le> \<bar>(2 ^ 600) ^ 2\<bar>"
proof -
  have "(0::real) < 2 ^ 970" by (rule zero_less_power) simp
  then have "float_overflow < (2::real) ^ 1024"
    by (simp only: float_overflow_def diff_less_eq less_add_same_cancel1)
  also have "(2::real) ^ 1024 \<le> 2 ^ 1200" by (rule power_increasing) simp_all
  also have "(2::real) ^ 1200 = (2 ^ 600) ^ 2" by (simp only: power_mult[symmetric]) simp
  also have "\<dots> \<le> \<bar>(2 ^ 600) ^ 2\<bar>" by (rule abs_ge_self)
  finally show ?thesis by simp
qed

section \<open>What calculate_position does with the solver's outcome\<close>

lemma valid_loop_calibration:
  "valid_loop (self\<lparr> calibration_type := ct, calibration_params := ps \<rparr>) items acc
     = valid_loop self items acc"
  by (induction self items acc rule: valid_loop.induct)
     (simp_all add: validate_range_def split: option.splits)

lemma calculate_position_cases:
  "(\<forall>m. calculate_position slv self distances \<noteq> Inl (ValueError m)) \<and>
   (3 \<le> length (valid_distances_of self distances) \<longrightarrow>
     (case multilateration slv (map (\<lambda>(k, d). (k, Some d)) (valid_distances_of self distances))
             (anchor_positions self) (z_sign self) of
        Inr p \<Rightarrow> calculate_position slv self distances = Inr (Some p)
      | Inl e \<Rightarrow> calculate_position slv self distances
                  = (if is_ValueError e then Inr None else Inl e)))"
  by (auto simp: calculate_position_def Let_def split: sum.splits exn.splits)

section \<open>Properties of the specification\<close>

text \<open>
  C1. The specification says that a ring buffer of capacity 3, after the four one-byte
  chunks "1", "2", "3", "4" have been appended, is popped as "2", "3", "4", and the test
  \<^verbatim>\<open>test_buffer_wrap_around\<close> asserts the same. The code keeps \<open>size\<close> at 3 but
  leaves \<open>tail\<close> at 0 when the fourth write overwrites slot 0, so the three pops
  return "4", "2", "3".
\<close>

theorem C1_wrap_around_pops_4_2_3:
  "appends (CircularBuffer_init 3 5) [[0x31], [0x32], [0x33], [0x34]]
     = Inr \<lparr> buffer = [[0x34], [0x32], [0x33]], head = 1, size_cb = 3, tail = 0,
             element_size = 5 \<rparr>
   \<and> pops 3 \<lparr> buffer = [[0x34], [0x32], [0x33]], head = 1, size_cb = 3, tail = 0,
              element_size = 5 \<rparr>
     = Inr ([Some [0x34], Some [0x32], Some [0x33]],
            \<lparr> buffer = [[0x34], [0x32], [0x33]], head = 1, size_cb = 0, tail = 0,
              element_size = 5 \<rparr>)"
  by (simp add: CircularBuffer_init_3 pops_3 append_cb_def bytes_split_single
      put_def pop_def popped_def)

text \<open>
  C2. For all distances and all \<open>L2 > 0\<close>, \<open>L3 > 0\<close>, \<open>solve_position\<close> returns
  \<open>x = (L2\<^sup>2 + d1\<^sup>2 - d2\<^sup>2) / (2 L2)\<close>, \<open>y = (L3\<^sup>2 + d1\<^sup>2 - d3\<^sup>2) / (2 L3)\<close> and
  \<open>z = sign * sqrt (max 0 (d1\<^sup>2 - x\<^sup>2 - y\<^sup>2))\<close>, with sign \<open>+1\<close> for the upper policy
  (\<open>z_sign = 1\<close>) and \<open>-1\<close> for the lower one (\<open>z_sign = -1\<close>); a negative \<open>z\<^sup>2\<close> is
  clamped to 0 and is no failure; with \<open>L2 \<le> 0\<close> or \<open>L3 \<le> 0\<close> the call fails with the
  geometry error. Floats are read as real numbers.
\<close>

theorem C2_solve_position_closed_form:
  "(0 < L2 \<and> 0 < L3 \<longrightarrow>
      (let x = (L2\<^sup>2 + d1\<^sup>2 - d2\<^sup>2) / (2 * L2);
           y = (L3\<^sup>2 + d1\<^sup>2 - d3\<^sup>2) / (2 * L3)
       in solve_position d1 d2 d3 1 eps L2 L3
            = Inr (x, y, sqrt (max 0 (d1\<^sup>2 - x\<^sup>2 - y\<^sup>2)))
        \<and> solve_position d1 d2 d3 (- 1) eps L2 L3
            = Inr (x, y, - sqrt (max 0 (d1\<^sup>2 - x\<^sup>2 - y\<^sup>2)))))
   \<and> (L2 \<le> 0 \<or> L3 \<le> 0 \<longrightarrow>
        solve_position d1 d2 d3 zs eps L2 L3 = Inl (ValueError L2_and_L3_must_be_positive))"
  by (simp add: solve_position_def Let_def power2_eq_square max_def not_less)

theorem C2_solve_position_witness:
  "(0::real) < 3 \<and> solve_position (sqrt 3) (sqrt 6) (sqrt 6) 1 0 3 3 = Inr (1, 1, 1)
   \<and> solve_position (sqrt 3) (sqrt 6) (sqrt 6) (- 1) 0 3 3 = Inr (1, 1, - 1)
   \<and> solve_position 1 3 1 1 0 1 1 = Inr (- 7 / 2, 1 / 2, 0)
   \<and> solve_position 1 1 1 1 0 0 1 = Inl (ValueError L2_and_L3_must_be_positive)"
  using C2_solve_position_closed_form[of 3 3 "sqrt 3" "sqrt 6" "sqrt 6" 0 1]
    C2_solve_position_closed_form[of 1 1 1 3 1 0 1]
    C2_solve_position_closed_form[of 0 1 1 1 1 0 1]
  by (simp add: Let_def power2_eq_square)

text \<open>
  C3. The specification orders the entry checks as InsufficientAnchors, InsufficientData,
  NoCommonAnchors, and the test \<^verbatim>\<open>test_multilateration_insufficient_anchors\<close> expects
  "Not enough anchor positions" for two anchors and two samples. The code counts the
  samples first: on that input it raises "Not enough data", whatever the solver.
\<close>

theorem C3_two_anchors_two_samples_not_enough_data:
  "multilateration slv [(1, Some 1), (2, Some 2)] [(1, (0, 0, 0)), (2, (3, 0, 0))] 0
     = Inl (ValueError Not_enough_data)"
  by (simp add: multilateration_def solver_input_def non_zero_data_of_def keys_def)

text \<open>
  C4, as the specification states it: the arity of the calibration parameters is
  checked when the engine is constructed, so \<open>calibrate\<close> never fails. In the code the
  constructor accepts the linear model without parameters and \<open>calibrate\<close> then raises.
\<close>

theorem C4_arity_unchecked_at_construction:
  "LocalizationEngine_init test_anchor_positions ''linear'' None 0 0 100
     = Inr \<lparr> anchor_positions = test_anchor_positions, calibration_type = ''linear'',
             calibration_params = [], z_sign = 0, min_range = 0, max_range = 100 \<rparr>
   \<and> calibrate \<lparr> anchor_positions = test_anchor_positions, calibration_type = ''linear'',
                 calibration_params = [], z_sign = 0, min_range = 0, max_range = 100 \<rparr> 5
     = Inl (ValueError Linear_requires_2_parameters)"
  by (simp add: LocalizationEngine_init_def Let_def test_anchor_positions_def calibrate_def)

text \<open>
  C4, amended: constructing an engine checks only that there are at least 3 anchor
  positions and stores the calibration type and parameters as given; the arity is
  checked by \<open>calibrate\<close> at each call, which raises a \<^verbatim>\<open>ValueError\<close> exactly when
  the type is linear, quadratic or cubic and the number of parameters is not 2, 3 or 4
  respectively. With a matching arity \<open>calibrate\<close> still has one failure at call time:
  for the quadratic and cubic types it raises \<^verbatim>\<open>OverflowError\<close> exactly when the
  power \<^verbatim>\<open>x**2\<close> or \<^verbatim>\<open>x**3\<close> of the raw distance is out of the float range. In
  every other case it returns a value.
\<close>

theorem C4_arity_checked_per_call:
  "LocalizationEngine_init aps ct cps zs mn mx =
      (if length aps < 3 then Inl (ValueError At_least_3_anchor_positions)
       else Inr \<lparr> anchor_positions = aps, calibration_type = ct,
                  calibration_params = (case cps of None \<Rightarrow> [] | Some ps \<Rightarrow> ps),
                  z_sign = zs, min_range = mn, max_range = mx \<rparr>)
   \<and> ((\<exists>m. calibrate self raw = Inl (ValueError m)) \<longleftrightarrow>
        (calibration_type self = ''linear'' \<and> length (calibration_params self) \<noteq> 2) \<or>
        (calibration_type self = ''quadratic'' \<and> length (calibration_params self) \<noteq> 3) \<or>
        (calibration_type self = ''cubic'' \<and> length (calibration_params self) \<noteq> 4))
   \<and> (calibrate self raw = Inl OverflowError \<longleftrightarrow>
        (calibration_type self = ''quadratic'' \<and> length (calibration_params self) = 3
           \<and> float_overflow \<le> \<bar>raw ^ 2\<bar>) \<or>
        (calibration_type self = ''cubic'' \<and> length (calibration_params self) = 4
           \<and> (float_overflow \<le> \<bar>raw ^ 3\<bar> \<or> float_overflow \<le> \<bar>raw ^ 2\<bar>)))
   \<and> (\<forall>e. calibrate self raw = Inl e \<longrightarrow> is_ValueError e \<or> e = OverflowError)"
proof -
  have init: "LocalizationEngine_init aps ct cps zs mn mx =
      (if length aps < 3 then Inl (ValueError At_least_3_anchor_positions)
       else Inr \<lparr> anchor_positions = aps, calibration_type = ct,
                  calibration_params = (case cps of None \<Rightarrow> [] | Some ps \<Rightarrow> ps),
                  z_sign = zs, min_range = mn, max_range = mx \<rparr>)"
    by (simp add: LocalizationEngine_init_def Let_def)
  have names: "''linear'' \<noteq> ''quadratic''" "''linear'' \<noteq> ''cubic''" "''quadratic'' \<noteq> ''cubic''"
    by simp_all
  have q: "calibrated_quadratic a b c raw =
      (if float_overflow \<le> \<bar>raw ^ 2\<bar> then Inl OverflowError else Inr (a * raw ^ 2 + b * raw + c))"
    for a b c
    by (simp add: calibrated_quadratic_def float_pow_def)
  have c: "calibrated_cubic a b c d raw =
      (if float_overflow \<le> \<bar>raw ^ 3\<bar> \<or> float_overflow \<le> \<bar>raw ^ 2\<bar> then Inl OverflowError
       else Inr (a * raw ^ 3 + b * raw ^ 2 + c * raw + d))"
    for a b c d
    by (simp add: calibrated_cubic_def float_pow_def)
  have v: "(\<exists>m. calibrate self raw = Inl (ValueError m)) \<longleftrightarrow>
        (calibration_type self = ''linear'' \<and> length (calibration_params self) \<noteq> 2) \<or>
        (calibration_type self = ''quadratic'' \<and> length (calibration_params self) \<noteq> 3) \<or>
        (calibration_type self = ''cubic'' \<and> length (calibration_params self) \<noteq> 4)"
    using names by (auto simp: calibrate_def Let_def q c split: if_splits)
  have ov: "calibrate self raw = Inl OverflowError \<longleftrightarrow>
        (calibration_type self = ''quadratic'' \<and> length (calibration_params self) = 3
           \<and> float_overflow \<le> \<bar>raw ^ 2\<bar>) \<or>
        (calibration_type self = ''cubic'' \<and> length (calibration_params self) = 4
           \<and> (float_overflow \<le> \<bar>raw ^ 3\<bar> \<or> float_overflow \<le> \<bar>raw ^ 2\<bar>))"
    using names by (auto simp: calibrate_def Let_def q c split: if_splits)
  have only: "\<forall>e. calibrate self raw = Inl e \<longrightarrow> is_ValueError e \<or> e = OverflowError"
    by (auto simp: calibrate_def Let_def q c split: if_splits)
  from init v ov only show ?thesis by blast
qed

theorem C4_arity_checked_per_call_witness:
  "LocalizationEngine_init test_anchor_positions ''cubic'' (Some [1, 2]) 0 0 100
     = Inr (test_engine\<lparr> calibration_type := ''cubic'', calibration_params := [1, 2] \<rparr>)
   \<and> calibrate (test_engine\<lparr> calibration_type := ''cubic'', calibration_params := [1, 2] \<rparr>) 5
     = Inl (ValueError Cubic_requires_4_parameters)
   \<and> calibrate (test_engine\<lparr> calibration_type := ''linear'', calibration_params := [2, 1] \<rparr>) 5
     = Inr 11
   \<and> calibrate (test_engine\<lparr> calibration_type := ''quadratic'',
                             calibration_params := [1, 2, 1] \<rparr>) 2 = Inr 9
   \<and> float_overflow \<le> \<bar>(2 ^ 600) ^ 2\<bar>
   \<and> calibrate (test_engine\<lparr> calibration_type := ''quadratic'',
                             calibration_params := [1, 2, 1] \<rparr>) (2 ^ 600) = Inl OverflowError"
proof -
  note t1 = C4_arity_checked_per_call[of test_anchor_positions "''cubic''" "Some [1, 2]" 0 0 100
      "test_engine\<lparr> calibration_type := ''cubic'', calibration_params := [1, 2] \<rparr>" 5]
  note t2 = C4_arity_checked_per_call[of test_anchor_positions "''cubic''" "Some [1, 2]" 0 0 100
      "test_engine\<lparr> calibration_type := ''quadratic'', calibration_params := [1, 2, 1] \<rparr>"
      "2 ^ 600"]
  have a: "LocalizationEngine_init test_anchor_positions ''cubic'' (Some [1, 2]) 0 0 100
     = Inr (test_engine\<lparr> calibration_type := ''cubic'', calibration_params := [1, 2] \<rparr>)"
    using t1 by (simp add: test_engine_def test_anchor_positions_def)
  have b: "calibrate (test_engine\<lparr> calibration_type := ''cubic'', calibration_params := [1, 2] \<rparr>) 5
     = Inl (ValueError Cubic_requires_4_parameters)"
    by (simp add: test_engine_def calibrate_def)
  have c: "calibrate (test_engine\<lparr> calibration_type := ''linear'', calibration_params := [2, 1] \<rparr>) 5
     = Inr 11"
    by (simp add: test_engine_def calibrate_def calibrated_linear_def)
  have d: "calibrate (test_engine\<lparr> calibration_type := ''quadratic'',
                             calibration_params := [1, 2, 1] \<rparr>) (2 ^ 600) = Inl OverflowError"
    using t2 float_overflow_le_power by (simp only: test_engine_def) simp
  have e: "calibrate (test_engine\<lparr> calibration_type := ''quadratic'',
                             calibration_params := [1, 2, 1] \<rparr>) 2 = Inr 9"
    by (simp add: test_engine_def calibrate_def calibrated_quadratic_def float_pow_def
        float_overflow_def)
  from a b c d e float_overflow_le_power show ?thesis by (simp only: simp_thms)
qed

text \<open>
  C5, as the specification states it: a piece longer than the frame size of 5 bytes is
  never stored by the Stream Framer, so a chunk that is one 6-byte piece leaves what can
  be popped unchanged. The serial adapter builds its buffer with \<^verbatim>\<open>element_size=7\<close>:
  the 6-byte chunk is stored and the next \<open>pop\<close> returns it.
\<close>

theorem C5_serial_buffer_keeps_6_byte_span:
  "contents SerialInputAdapter_buffer = []
   \<and> pop SerialInputAdapter_buffer = Inr (None, SerialInputAdapter_buffer)
   \<and> bytes_split [1, 2, 3, 4, 5, 6] = [[1, 2, 3, 4, 5, 6]]
   \<and> append_cb SerialInputAdapter_buffer (Some [1, 2, 3, 4, 5, 6])
       = Inr (put SerialInputAdapter_buffer [1, 2, 3, 4, 5, 6])
   \<and> contents (put SerialInputAdapter_buffer [1, 2, 3, 4, 5, 6]) = [[1, 2, 3, 4, 5, 6]]
   \<and> pop (put SerialInputAdapter_buffer [1, 2, 3, 4, 5, 6])
       = Inr (Some [1, 2, 3, 4, 5, 6], popped (put SerialInputAdapter_buffer [1, 2, 3, 4, 5, 6]))"
  by (simp add: SerialInputAdapter_buffer_def CircularBuffer_init_def contents_def pop_def
      bytes_split_def delimiter_def append_cb_def put_def)

text \<open>
  C5, amended: \<open>append\<close> discards every piece that is longer than the buffer's
  \<open>element_size\<close> (and every empty piece) and stores the others in order; a chunk all
  of whose pieces are longer than \<open>element_size\<close> leaves the buffer unchanged. The
  limit is 5 by default, but the buffer of the serial adapter is built with 7, so there
  pieces of 6 and 7 bytes are stored and pieces of 8 bytes or more are discarded.
\<close>

theorem C5_spans_over_element_size_dropped:
  "append_loop b (bytes_split chunk) = append_loop b (accepted b chunk)
   \<and> (\<forall>item \<in> set (accepted b chunk). item \<noteq> [] \<and> int (length item) \<le> element_size b)
   \<and> (ring_inv b \<and> size_cb b + length (accepted b chunk) \<le> length (buffer b) \<longrightarrow>
        (\<exists>b'. append_cb b (Some chunk) = Inr b' \<and> contents b' = contents b @ accepted b chunk))
   \<and> ((\<forall>item \<in> set (bytes_split chunk). int (length item) > element_size b)
        \<and> size_cb b \<le> length (buffer b) \<longrightarrow> append_cb b (Some chunk) = Inr b)
   \<and> ((\<forall>i. take 4 (drop i chunk) \<noteq> delimiter) \<and> int (length chunk) > element_size b
        \<and> size_cb b \<le> length (buffer b) \<longrightarrow> append_cb b (Some chunk) = Inr b)
   \<and> element_size SerialInputAdapter_buffer = 7
   \<and> element_size (CircularBuffer_init n default_element_size) = 5"
proof -
  have a: "append_loop b (bytes_split chunk) = append_loop b (accepted b chunk)"
    unfolding accepted_def by (rule append_loop_filter)
  have b: "\<forall>item \<in> set (accepted b chunk). item \<noteq> [] \<and> int (length item) \<le> element_size b"
    by (simp add: accepted_def slot_ok_def)
  have c: "\<exists>b'. append_cb b (Some chunk) = Inr b' \<and> contents b' = contents b @ accepted b chunk"
    if "ring_inv b" "size_cb b + length (accepted b chunk) \<le> length (buffer b)"
  proof -
    from append_loop_ring[OF that(1), of "bytes_split chunk"] that(2)
    obtain b' where "append_loop b (bytes_split chunk) = Inr b'" "ring_inv b'"
      "contents b' = contents b @ accepted b chunk"
      by (auto simp: accepted_def)
    then show ?thesis by (simp add: append_cb_def ring_inv_def)
  qed
  have d: "append_cb b (Some chunk) = Inr b"
    if "\<forall>item \<in> set (bytes_split chunk). int (length item) > element_size b"
      "size_cb b \<le> length (buffer b)"
  proof -
    from that(1) have "accepted b chunk = []"
      by (auto simp: accepted_def slot_ok_def filter_empty_conv)
    with a have "append_loop b (bytes_split chunk) = Inr b" by simp
    with that(2) show ?thesis by (simp add: append_cb_def)
  qed
  have d': "append_cb b (Some chunk) = Inr b"
    if "\<forall>i. take 4 (drop i chunk) \<noteq> delimiter" "int (length chunk) > element_size b"
      "size_cb b \<le> length (buffer b)"
  proof -
    from that(1) have "bytes_split chunk = [chunk]"
      by (simp add: bytes_split_def split_loop_no_delimiter)
    with that(2) have "\<forall>item \<in> set (bytes_split chunk). int (length item) > element_size b"
      by simp
    then show ?thesis using that(3) by (rule d)
  qed
  have e: "element_size SerialInputAdapter_buffer = 7"
    "element_size (CircularBuffer_init n default_element_size) = 5"
    by (simp_all add: SerialInputAdapter_buffer_def CircularBuffer_init_def default_element_size_def)
  from a b c d d' e show ?thesis by blast
qed

theorem C5_spans_over_element_size_dropped_witness:
  "ring_inv SerialInputAdapter_buffer
   \<and> size_cb SerialInputAdapter_buffer
       + length (accepted SerialInputAdapter_buffer
           ([1, 2, 3, 4, 5] @ delimiter @ [1, 2, 3, 4, 5, 6, 7] @ delimiter @ [1, 2, 3, 4, 5, 6, 7, 8]))
       \<le> length (buffer SerialInputAdapter_buffer)
   \<and> accepted SerialInputAdapter_buffer
         ([1, 2, 3, 4, 5] @ delimiter @ [1, 2, 3, 4, 5, 6, 7] @ delimiter @ [1, 2, 3, 4, 5, 6, 7, 8])
       = [[1, 2, 3, 4, 5], [1, 2, 3, 4, 5, 6, 7]]
   \<and> bytes_split [1, 2, 3, 4, 5, 6, 7, 8] = [[1, 2, 3, 4, 5, 6, 7, 8]]
   \<and> int (length [1 :: byte, 2, 3, 4, 5, 6, 7, 8]) > element_size SerialInputAdapter_buffer
   \<and> append_cb SerialInputAdapter_buffer (Some [1, 2, 3, 4, 5, 6, 7, 8])
       = Inr SerialInputAdapter_buffer"
  using C5_spans_over_element_size_dropped[of SerialInputAdapter_buffer "[1, 2, 3, 4, 5, 6, 7, 8]"]
    C5_spans_over_element_size_dropped[of SerialInputAdapter_buffer
      "[1, 2, 3, 4, 5] @ delimiter @ [1, 2, 3, 4, 5, 6, 7] @ delimiter @ [1, 2, 3, 4, 5, 6, 7, 8]"]
  by (simp add: SerialInputAdapter_buffer_def CircularBuffer_init_def ring_inv_def accepted_def
      slot_ok_def bytes_split_def delimiter_def)

text \<open>
  C6. The specification says that whatever failure arises inside the solve,
  \<open>calculate_position\<close> returns \<^verbatim>\<open>None\<close>, and the docstring of the method says
  the same (\<^verbatim>\<open>None if calculation fails\<close>). The handler around the solve is
  \<^verbatim>\<open>except ValueError\<close>, so an exception of another class raised by the external
  package leaves the method: with three samples of 0.0 and a solve that raises
  \<^verbatim>\<open>ZeroDivisionError\<close>, the caller receives the exception.
\<close>

theorem C6_other_exception_propagates:
  "calculate_position (raising_solver ZeroDivisionError) test_engine
     [(1, Some 0), (2, Some 0), (3, Some 0)] = Inl ZeroDivisionError"
  by (simp add: calculate_position_def valid_distances_of_def test_engine_def validate_range_def
      multilateration_def solver_input_def non_zero_data_of_def keys_def matched_ids_of_def
      test_anchor_positions_def raising_solver_def Let_def)

text \<open>
  C7, as the specification states it: when fewer than 3 entries survive calibration and
  the range check, \<open>calculate_position\<close> returns \<^verbatim>\<open>None\<close>. The method does not
  calibrate: with the linear model \<open>1000 x + 0\<close> and three samples of 1.0, no entry
  survives calibration followed by the range check \<open>[0, 100]\<close>, yet all three pass the
  range check as they are, the solver is invoked and its position is returned.
\<close>

theorem C7_calibration_not_applied:
  "length (calibrated_survivors
      (test_engine\<lparr> calibration_type := ''linear'', calibration_params := [1000, 0] \<rparr>)
      [(1, Some 1), (2, Some 1), (3, Some 1)]) = 0
   \<and> calculate_position (returning_solver (1, 1, 0))
      (test_engine\<lparr> calibration_type := ''linear'', calibration_params := [1000, 0] \<rparr>)
      [(1, Some 1), (2, Some 1), (3, Some 1)] = Inr (Some (1, 1, 0))"
  by (simp add: calibrated_survivors_def calibrate_def calibrated_linear_def
      calculate_position_def valid_distances_of_def test_engine_def validate_range_def
      multilateration_def solver_input_def non_zero_data_of_def keys_def matched_ids_of_def
      test_anchor_positions_def returning_solver_def Let_def)

text \<open>
  C7, amended: \<open>calculate_position\<close> applies no calibration (its result does not
  depend on the calibration type or parameters; the caller calibrates beforehand).
  Whenever fewer than 3 entries of the cycle it is handed are present and within the
  inclusive bounds \<open>[min_range, max_range]\<close>, however many entries were supplied, the
  result is \<^verbatim>\<open>None\<close>, and it is so for every behaviour of the solver: the solver
  is not invoked.
\<close>

theorem C7_fewer_than_3_in_range_None:
  "(length (survivors self distances) < 3 \<longrightarrow> calculate_position slv self distances = Inr None)
   \<and> calculate_position slv (self\<lparr> calibration_type := ct, calibration_params := ps \<rparr>) distances
       = calculate_position slv self distances"
proof -
  have "calculate_position slv self distances = Inr None"
    if "length (survivors self distances) < 3"
    using that valid_loop_length[of self distances "[]"]
    by (simp add: calculate_position_def valid_distances_of_def Let_def)
  moreover have "calculate_position slv (self\<lparr> calibration_type := ct, calibration_params := ps \<rparr>)
      distances = calculate_position slv self distances"
    by (simp add: calculate_position_def valid_distances_of_def valid_loop_calibration Let_def)
  ultimately show ?thesis by blast
qed

theorem C7_fewer_than_3_in_range_witness:
  "length (survivors test_engine
      [(1, Some 0), (2, Some 150), (3, None), (4, Some 100), (5, Some (- 1))]) < 3
   \<and> calculate_position (raising_solver ZeroDivisionError) test_engine
      [(1, Some 0), (2, Some 150), (3, None), (4, Some 100), (5, Some (- 1))] = Inr None
   \<and> calculate_position (raising_solver ZeroDivisionError)
      (test_engine\<lparr> calibration_type := ''linear'', calibration_params := [1000, 0] \<rparr>)
      [(1, Some 0), (2, Some 150), (3, None), (4, Some 100), (5, Some (- 1))] = Inr None"
  using C7_fewer_than_3_in_range_None[where self = test_engine
      and distances = "[(1, Some 0), (2, Some 150), (3, None), (4, Some 100), (5, Some (- 1))]"
      and slv = "raising_solver ZeroDivisionError" and ct = "''linear''" and ps = "[1000, 0]"]
  by (simp add: survivors_def test_engine_def)

text \<open>
  C8. Decoding a popped piece whose length is not 5 fails with \<^verbatim>\<open>struct.error\<close>
  (the specification's MalformedFrame), which the draining loop of \<^verbatim>\<open>_read_loop\<close>
  receives; the buffer is then exactly in the state the \<open>pop\<close> left, and
  \<^verbatim>\<open>ranges\<close> is untouched. In a buffer that satisfies the ring invariant the
  entries enqueued behind the malformed piece are therefore still there and are popped
  unchanged and in order.
\<close>

theorem C8_malformed_frame_keeps_queue:
  "(pop b = Inr (Some s, b') \<and> length s \<noteq> 5 \<longrightarrow>
      Message s = Inl StructError \<and> drain b ranges = (Some StructError, b', ranges))
   \<and> (ring_inv b \<and> contents b = s # rest \<and> length s \<noteq> 5 \<longrightarrow>
      pop b = Inr (Some s, popped b) \<and> ring_inv (popped b) \<and> contents (popped b) = rest \<and>
      (\<exists>b''. pops (length rest) (popped b) = Inr (map Some rest, b'') \<and> size_cb b'' = 0))"
proof -
  have decode: "Message s = Inl StructError \<and> drain b ranges = (Some StructError, b', ranges)"
    if p: "pop b = Inr (Some s, b')" and l: "length s \<noteq> 5"
  proof -
    have m: "Message s = Inl StructError" using l by (rule Message_malformed)
    from p have pos: "0 < size_cb b" by (auto simp: pop_def split: if_splits)
    have "drain b ranges = (Some StructError, b', ranges)"
      using pos p m by (subst drain.simps) simp
    with m show ?thesis by simp
  qed
  have queue: "pop b = Inr (Some s, popped b) \<and> ring_inv (popped b) \<and>
      contents (popped b) = rest \<and>
      (\<exists>b''. pops (length rest) (popped b) = Inr (map Some rest, b'') \<and> size_cb b'' = 0)"
    if inv: "ring_inv b" and c: "contents b = s # rest"
  proof -
    note p = pop_ring[OF inv c]
    from pops_ring[OF p(2), of rest "[]"] p(3)
    obtain b'' where "pops (length rest) (popped b) = Inr (map Some rest, b'')"
      "contents b'' = []"
      by auto
    then have "\<exists>b''. pops (length rest) (popped b) = Inr (map Some rest, b'') \<and> size_cb b'' = 0"
      by (auto simp: contents_def)
    with p show ?thesis by simp
  qed
  from decode queue show ?thesis by blast
qed

theorem C8_malformed_frame_witness:
  "ring_inv \<lparr> buffer = [[1, 2, 3], [1, 0x88, 0x13, 0, 0], [0]], head = 2, size_cb = 2, tail = 0,
              element_size = 5 \<rparr>
   \<and> contents \<lparr> buffer = [[1, 2, 3], [1, 0x88, 0x13, 0, 0], [0]], head = 2, size_cb = 2, tail = 0,
                element_size = 5 \<rparr> = [[1, 2, 3], [1, 0x88, 0x13, 0, 0]]
   \<and> length [1 :: byte, 2, 3] \<noteq> 5
   \<and> pop \<lparr> buffer = [[1, 2, 3], [1, 0x88, 0x13, 0, 0], [0]], head = 2, size_cb = 2, tail = 0,
            element_size = 5 \<rparr>
       = Inr (Some [1, 2, 3],
              \<lparr> buffer = [[1, 2, 3], [1, 0x88, 0x13, 0, 0], [0]], head = 2, size_cb = 1, tail = 1,
                element_size = 5 \<rparr>)
   \<and> drain \<lparr> buffer = [[1, 2, 3], [1, 0x88, 0x13, 0, 0], [0]], head = 2, size_cb = 2, tail = 0,
              element_size = 5 \<rparr> []
       = (Some StructError,
          \<lparr> buffer = [[1, 2, 3], [1, 0x88, 0x13, 0, 0], [0]], head = 2, size_cb = 1, tail = 1,
            element_size = 5 \<rparr>, [])
   \<and> pop \<lparr> buffer = [[1, 2, 3], [1, 0x88, 0x13, 0, 0], [0]], head = 2, size_cb = 1, tail = 1,
            element_size = 5 \<rparr>
       = Inr (Some [1, 0x88, 0x13, 0, 0],
              \<lparr> buffer = [[1, 2, 3], [1, 0x88, 0x13, 0, 0], [0]], head = 2, size_cb = 0, tail = 2,
                element_size = 5 \<rparr>)
   \<and> Message [1, 0x88, 0x13, 0, 0] = Inr (1, 5000)"
  using C8_malformed_frame_keeps_queue[of
      "\<lparr> buffer = [[1, 2, 3], [1, 0x88, 0x13, 0, 0], [0]], head = 2, size_cb = 2, tail = 0,
         element_size = 5 \<rparr>" "[1, 2, 3]"
      "\<lparr> buffer = [[1, 2, 3], [1, 0x88, 0x13, 0, 0], [0]], head = 2, size_cb = 1, tail = 1,
         element_size = 5 \<rparr>" "[]" "[[1, 0x88, 0x13, 0, 0]]"]
  by (simp add: ring_inv_def contents_def popped_def pop_def upt_rec)

text \<open>
  C9. For every calibration type other than \<^verbatim>\<open>'linear'\<close>, \<^verbatim>\<open>'quadratic'\<close> and
  \<^verbatim>\<open>'cubic'\<close>, \<open>calibrate\<close> returns the raw distance unchanged, whatever the
  parameters are.
\<close>

theorem C9_unknown_type_is_identity:
  "calibration_type self \<noteq> ''linear'' \<Longrightarrow> calibration_type self \<noteq> ''quadratic'' \<Longrightarrow>
   calibration_type self \<noteq> ''cubic'' \<Longrightarrow> calibrate self raw = Inr raw"
  by (simp add: calibrate_def)

theorem C9_unknown_type_is_identity_witness:
  "calibration_type (test_engine\<lparr> calibration_type := ''spline'',
                                  calibration_params := [1, 0] \<rparr>) \<noteq> ''linear''
   \<and> calibrate (test_engine\<lparr> calibration_type := ''spline'',
                             calibration_params := [1, 0] \<rparr>) 5 = Inr 5"
  using C9_unknown_type_is_identity[of
      "test_engine\<lparr> calibration_type := ''spline'', calibration_params := [1, 0] \<rparr>" 5]
  by simp

text \<open>
  C10. The first loop of \<open>multilateration\<close> drops exactly the samples that are
  \<^verbatim>\<open>None\<close>: a sample of exactly 0.0 is kept in \<^verbatim>\<open>non_zero_data\<close>. It counts
  toward the minimum: the check for 3 samples fails exactly when fewer than 3 samples
  are not \<^verbatim>\<open>None\<close>, zeros included. And it is passed on: when there are at least 3
  such samples, 3 anchor positions and 3 common identifiers, the solve is reached, and
  whenever it is reached the zero sample of an anchor with a position is among the
  measures handed to it.
\<close>

theorem C10_zero_distance_kept:
  assumes "is_dict raw" "(k, Some 0) \<in> set raw"
  shows "non_zero_data_of raw = present raw
       \<and> (k, 0) \<in> set (non_zero_data_of raw)
       \<and> length (non_zero_data_of raw) = length (filter (\<lambda>(k, v). v \<noteq> None) raw)
       \<and> (solver_input raw aps = Inl (ValueError Not_enough_data)
            \<longleftrightarrow> length (filter (\<lambda>(k, v). v \<noteq> None) raw) < 3)
       \<and> (3 \<le> length (filter (\<lambda>(k, v). v \<noteq> None) raw) \<and> 3 \<le> length aps
            \<and> 3 \<le> length (matched_ids_of (present raw) aps) \<longrightarrow>
            (\<exists>anchors measured. solver_input raw aps = Inr (anchors, measured)))
       \<and> (\<forall>anchors measured. solver_input raw aps = Inr (anchors, measured) \<longrightarrow>
             k \<in> set (keys aps) \<longrightarrow> (k, 0) \<in> set measured)"
proof -
  have nz: "non_zero_data_of raw = present raw"
    using assms(1) by (rule non_zero_data_of_present)
  have len: "length (present raw) = length (filter (\<lambda>(k, v). v \<noteq> None) raw)"
    by (rule length_present)
  have mem: "(k, 0) \<in> set (present raw)" using assms(2) by (simp add: set_present)
  have d: "distinct (map fst (present raw))"
    using assms(1) by (simp add: is_dict_def distinct_present)
  have look: "map_of (present raw) k = Some 0" using d mem by simp
  have few: "solver_input raw aps = Inl (ValueError Not_enough_data)
      \<longleftrightarrow> length (filter (\<lambda>(k, v). v \<noteq> None) raw) < 3"
    by (auto simp: solver_input_def Let_def nz len split: sum.splits dest: getitems_error)
  have reach: "\<exists>anchors measured. solver_input raw aps = Inr (anchors, measured)"
    if "3 \<le> length (filter (\<lambda>(k, v). v \<noteq> None) raw)" "3 \<le> length aps"
      "3 \<le> length (matched_ids_of (present raw) aps)"
  proof -
    from getitems_total[OF matched_ids_subset(2)]
    obtain anchors where a: "getitems aps (matched_ids_of (present raw) aps) = Inr anchors"
      by blast
    from getitems_total[OF matched_ids_subset(1)]
    obtain measured where m: "getitems (present raw) (matched_ids_of (present raw) aps) = Inr measured"
      by blast
    from that a m have "solver_input raw aps = Inr (anchors, measured)"
      by (simp add: solver_input_def Let_def nz len)
    then show ?thesis by blast
  qed
  have handed: "(k, 0) \<in> set measured"
    if si: "solver_input raw aps = Inr (anchors, measured)" and ka: "k \<in> set (keys aps)"
    for anchors measured
  proof -
    from si have g: "getitems (present raw) (matched_ids_of (present raw) aps) = Inr measured"
      by (auto simp: solver_input_def Let_def nz split: if_splits sum.splits)
    have "k \<in> set (matched_ids_of (present raw) aps)"
      using mem ka by (force simp: matched_ids_of_def keys_def)
    with getitems_Inr[OF g] look show ?thesis by force
  qed
  from nz mem len few reach handed show ?thesis by (simp add: nz)
qed

theorem C10_zero_distance_kept_witness:
  "is_dict [(1::int, Some (0::real)), (2, Some 1), (3, Some 1), (4, None)]
   \<and> non_zero_data_of [(1, Some 0), (2, Some 1), (3, Some 1), (4, None)]
       = [(1, 0), (2, 1), (3, 1)]
   \<and> solver_input [(1, Some 0), (2, Some 1), (3, Some 1), (4, None)] test_anchor_positions
       = Inr (test_anchor_positions, [(1, 0), (2, 1), (3, 1)])
   \<and> solver_input [(1, Some 0), (2, Some 1), (3, Some 1), (4, None)] test_anchor_positions
       \<noteq> Inl (ValueError Not_enough_data)"
  using C10_zero_distance_kept[of "[(1, Some 0), (2, Some 1), (3, Some 1), (4, None)]" 1
      test_anchor_positions]
  by (simp add: is_dict_def solver_input_def non_zero_data_of_def keys_def matched_ids_of_def
      test_anchor_positions_def Let_def present_def List.map_filter_simps)

end
